theory Spec2Isabelle
  imports Complex_Main
begin

section \<open>Data model of \<^verbatim>\<open>snake_game.py\<close>\<close>

text \<open>
  The simulation core of the game is embedded: \<^verbatim>\<open>Snake\<close>, \<^verbatim>\<open>Food\<close>,
  \<^verbatim>\<open>PowerUp\<close>, \<^verbatim>\<open>PowerUpManager\<close>, \<^verbatim>\<open>HighScoreManager.add_score\<close> and the
  discrete step inside \<^verbatim>\<open>Game.update\<close>. Rendering, sound and particles carry no
  simulation state and are left out. Python floats (time stamps, durations, multipliers)
  are read as real numbers: the program only adds, subtracts and compares them, and the
  constants it uses (0.5, 1.0, 1.5, 2.0, 5.0, 10.0, 15.0) are exact.

  Results of \<^verbatim>\<open>random\<close> are inputs of the model: the drawn power-up type and cell are
  arguments, and the cells drawn by \<^verbatim>\<open>Food.generate_position\<close> are an infinite sequence
  \<open>nat \<Rightarrow> pos\<close> read at a running index.
\<close>

type_synonym pos = "int \<times> int"

definition WINDOW_WIDTH :: int where "WINDOW_WIDTH = 1200"
definition WINDOW_HEIGHT :: int where "WINDOW_HEIGHT = 800"
definition GRID_SIZE :: int where "GRID_SIZE = 20"
definition GRID_WIDTH :: int where "GRID_WIDTH = WINDOW_WIDTH div GRID_SIZE"
definition GRID_HEIGHT :: int where "GRID_HEIGHT = WINDOW_HEIGHT div GRID_SIZE"

datatype failure = IndexError | ValueError | NonTermination

datatype GameState = MENU | PLAYING | PAUSED | GAME_OVER | HIGH_SCORES | SETTINGS

datatype Difficulty = EASY | MEDIUM | HARD

fun d_speed :: "Difficulty \<Rightarrow> real" where
  "d_speed EASY = 8"
| "d_speed MEDIUM = 12"
| "d_speed HARD = 18"



datatype PowerUpType = SPEED_BOOST | SLOW_DOWN | DOUBLE_POINTS | SHRINK | WALL_PHASE | MULTIPLIER

record PowerUp =
  ptype :: PowerUpType
  pposition :: pos
  duration :: real
  spawn_time :: real

record Snake =
  player_id :: int
  positions :: "pos list"
  direction :: pos
  grow_pending :: int
  score :: int
  alive :: bool
  power_ups :: "PowerUpType \<rightharpoonup> real"
  invulnerable_time :: real
  speed_multiplier :: real
  wall_phase :: bool

record PowerUpManager =
  active_powerups :: "PowerUp list"
  spawn_timer :: real
  spawn_interval :: real

section \<open>Snake\<close>

definition Snake_init :: "int \<Rightarrow> pos \<Rightarrow> Snake" where
  "Snake_init pid start_pos =
     \<lparr> player_id = pid, positions = [start_pos], direction = (1, 0), grow_pending = 0,
       score = 0, alive = True, power_ups = Map.empty, invulnerable_time = 0,
       speed_multiplier = 1, wall_phase = False \<rparr>"

text \<open>
  \<^verbatim>\<open>Snake.move\<close>. The grid size is read from the module constants; \<open>move_on\<close> takes
  them as arguments \<open>W\<close> and \<open>H\<close> and \<open>move\<close> instantiates them. Reading
  \<^verbatim>\<open>self.positions[0]\<close> of an empty list raises \<^verbatim>\<open>IndexError\<close>. The result pairs the
  updated snake with the returned flag.
\<close>

definition move_on :: "int \<Rightarrow> int \<Rightarrow> Snake \<Rightarrow> failure + (Snake \<times> bool)" where
  "move_on W H s =
     (if \<not> alive s then Inr (s, True)
      else case positions s of
        [] \<Rightarrow> Inl IndexError
      | (head_x, head_y) # _ \<Rightarrow>
          let new_head = (head_x + fst (direction s), head_y + snd (direction s)) in
          if \<not> wall_phase s \<and>
             (fst new_head < 0 \<or> fst new_head \<ge> W \<or> snd new_head < 0 \<or> snd new_head \<ge> H)
          then Inr (s\<lparr>alive := False\<rparr>, False)
          else
            let new_head = (if \<not> wall_phase s then new_head
                            else (fst new_head mod W, snd new_head mod H)) in
            if invulnerable_time s \<le> 0 \<and> new_head \<in> set (positions s)
            then Inr (s\<lparr>alive := False\<rparr>, False)
            else
              let s1 = s\<lparr>positions := new_head # positions s\<rparr> in
              if grow_pending s1 > 0
              then Inr (s1\<lparr>grow_pending := grow_pending s1 - 1\<rparr>, True)
              else Inr (s1\<lparr>positions := butlast (positions s1)\<rparr>, True))"

definition move :: "Snake \<Rightarrow> failure + (Snake \<times> bool)" where
  "move = move_on GRID_WIDTH GRID_HEIGHT"

definition change_direction :: "pos \<Rightarrow> Snake \<Rightarrow> Snake" where
  "change_direction d s =
     (if (fst d * - 1, snd d * - 1) \<noteq> direction s then s\<lparr>direction := d\<rparr> else s)"


text \<open>\<^verbatim>\<open>Snake.add_power_up\<close>: the slice \<^verbatim>\<open>positions[:len//2]\<close> is \<open>take\<close>.\<close>

definition add_power_up :: "PowerUpType \<Rightarrow> real \<Rightarrow> real \<Rightarrow> Snake \<Rightarrow> Snake" where
  "add_power_up powerup_type dur current_time s =
     (let s1 = s\<lparr>power_ups := (power_ups s)(powerup_type \<mapsto> current_time + dur)\<rparr> in
      if powerup_type = SPEED_BOOST then s1\<lparr>speed_multiplier := 2\<rparr>
      else if powerup_type = SLOW_DOWN then s1\<lparr>speed_multiplier := 1 / 2\<rparr>
      else if powerup_type = SHRINK then
        (if length (positions s1) > 3
         then s1\<lparr>positions := take (length (positions s1) div 2) (positions s1)\<rparr>
         else s1)
      else if powerup_type = WALL_PHASE then s1\<lparr>wall_phase := True, invulnerable_time := 2\<rparr>
      else s1)"

text \<open>\<open>iterate_move n\<close> calls \<open>move_on\<close> \<open>n\<close> times in a row and stops at an exception.\<close>

fun iterate_move :: "int \<Rightarrow> int \<Rightarrow> nat \<Rightarrow> Snake \<Rightarrow> failure + (Snake \<times> bool)" where
  "iterate_move W H 0 s = Inr (s, True)"
| "iterate_move W H (Suc n) s =
     (case iterate_move W H n s of
        Inl e \<Rightarrow> Inl e
      | Inr (s', _) \<Rightarrow> move_on W H s')"

section \<open>PowerUpManager\<close>

definition PowerUpManager_init :: PowerUpManager where
  "PowerUpManager_init = \<lparr> active_powerups = [], spawn_timer = 0, spawn_interval = 10 \<rparr>"

text \<open>
  \<^verbatim>\<open>spawn_powerup\<close>: \<open>rtype\<close> is the outcome of \<^verbatim>\<open>random.choice\<close> and \<open>rpos\<close> the
  pair of the two \<^verbatim>\<open>random.randint\<close> calls. The manager holds no reference to the snakes
  or the food.
\<close>

definition spawn_powerup :: "PowerUpType \<Rightarrow> pos \<Rightarrow> real \<Rightarrow> PowerUpManager \<Rightarrow> PowerUpManager" where
  "spawn_powerup rtype rpos current_time m =
     m\<lparr>active_powerups := active_powerups m @
          [\<lparr> ptype = rtype, pposition = rpos, duration = 5, spawn_time = current_time \<rparr>]\<rparr>"

definition pum_update ::
  "PowerUpType \<Rightarrow> pos \<Rightarrow> real \<Rightarrow> real \<Rightarrow> PowerUpManager \<Rightarrow> PowerUpManager" where
  "pum_update rtype rpos dt current_time m =
     (let m1 = m\<lparr>spawn_timer := spawn_timer m + dt\<rparr>;
          m2 = m1\<lparr>active_powerups :=
                    filter (\<lambda>p. current_time - spawn_time p < 15) (active_powerups m1)\<rparr>
      in if spawn_timer m2 > spawn_interval m2 \<and> length (active_powerups m2) < 3
         then (spawn_powerup rtype rpos current_time m2)\<lparr>spawn_timer := 0\<rparr>
         else m2)"


section \<open>Food and its respawn loop\<close>

record Food =
  fposition :: pos
  fvalue :: int

text \<open>
  The inner \<^verbatim>\<open>for snake in self.snakes\<close> of \<^verbatim>\<open>respawn_food\<close>, which sets
  \<^verbatim>\<open>occupied\<close> and breaks at the first snake holding the cell.
\<close>

fun occupied :: "Snake list \<Rightarrow> pos \<Rightarrow> bool" where
  "occupied [] p = False"
| "occupied (s # ss) p = (if p \<in> set (positions s) then True else occupied ss p)"

text \<open>
  The \<^verbatim>\<open>while True\<close> of \<^verbatim>\<open>respawn_food\<close>: draw a cell, leave the loop when no
  snake of the roster holds it. The loop has no other exit, so it is a partial function:
  \<open>None\<close> is the run that never leaves the loop. The result is the cell found and the
  index of the next unread draw.
\<close>

partial_function (option) respawn_food_loop ::
  "(nat \<Rightarrow> pos) \<Rightarrow> Snake list \<Rightarrow> nat \<Rightarrow> (pos \<times> nat) option" where
  "respawn_food_loop draws ss k =
     (if occupied ss (draws k) then respawn_food_loop draws ss (Suc k)
      else Some (draws k, Suc k))"

section \<open>Game\<close>

datatype Mode = Single | Multi

datatype score_label = Player | PlayerN int

record ScoreEntry =
  ename :: score_label
  escore :: int

record Game =
  state :: GameState
  difficulty :: Difficulty
  multiplayer :: bool
  snakes :: "Snake list"
  food :: Food
  powerup_manager :: PowerUpManager
  high_scores :: "Mode \<Rightarrow> ScoreEntry list"

text \<open>
  \<^verbatim>\<open>HighScoreManager.add_score\<close>: append, stable sort by descending score, keep ten.
  The label \<^verbatim>\<open>f"Player {id}"\<close> is \<open>PlayerN id\<close>; the time stamp and the file are
  left out.
\<close>

definition add_score ::
  "int \<Rightarrow> score_label \<Rightarrow> Mode \<Rightarrow> (Mode \<Rightarrow> ScoreEntry list) \<Rightarrow> (Mode \<Rightarrow> ScoreEntry list)" where
  "add_score sc player_name mode hs =
     hs(mode := take 10 (sort_key (\<lambda>e. - escore e)
                           (hs mode @ [\<lparr> ename = player_name, escore = sc \<rparr>])))"

definition respawn_food :: "(nat \<Rightarrow> pos) \<Rightarrow> nat \<Rightarrow> Game \<Rightarrow> failure + (Game \<times> nat)" where
  "respawn_food draws k g =
     (case respawn_food_loop draws (snakes g) k of
        None \<Rightarrow> Inl NonTermination
      | Some (p, k') \<Rightarrow> Inr (g\<lparr>food := (food g)\<lparr>fposition := p\<rparr>\<rparr>, k'))"

text \<open>
  \<^verbatim>\<open>reset_game\<close>: one snake, or two in multiplayer, a new \<^verbatim>\<open>Food()\<close> (which reads
  one draw), a new power-up manager, and \<^verbatim>\<open>respawn_food\<close>.
\<close>

definition reset_game :: "(nat \<Rightarrow> pos) \<Rightarrow> nat \<Rightarrow> Game \<Rightarrow> failure + (Game \<times> nat)" where
  "reset_game draws k g =
     (let snake1 = Snake_init 1 (GRID_WIDTH div 4, GRID_HEIGHT div 2);
          snake2 = (Snake_init 2 (3 * GRID_WIDTH div 4, GRID_HEIGHT div 2))\<lparr>direction := (- 1, 0)\<rparr>;
          g1 = g\<lparr>snakes := (if multiplayer g then [snake1, snake2] else [snake1]),
                 food := \<lparr> fposition = draws k, fvalue = 10 \<rparr>,
                 powerup_manager := PowerUpManager_init\<rparr>
      in respawn_food draws (Suc k) g1)"

section \<open>The discrete step of \<^verbatim>\<open>Game.update\<close>\<close>












text \<open>
  \<^verbatim>\<open>max(self.snakes, key=lambda s: s.score)\<close>: the running best is replaced only by a
  strictly greater score; an empty roster raises \<^verbatim>\<open>ValueError\<close>.
\<close>

fun max_score_from :: "Snake \<Rightarrow> Snake list \<Rightarrow> Snake" where
  "max_score_from best [] = best"
| "max_score_from best (s # ss) = max_score_from (if score s > score best then s else best) ss"

definition max_by_score :: "Snake list \<Rightarrow> failure + Snake" where
  "max_by_score ss = (case ss of [] \<Rightarrow> Inl ValueError | s # rest \<Rightarrow> Inr (max_score_from s rest))"

definition check_game_over :: "Game \<Rightarrow> failure + Game" where
  "check_game_over g =
     (if \<not> list_ex alive (snakes g)
      then let g1 = g\<lparr>state := GAME_OVER\<rparr> in
        if multiplayer g1
        then (case max_by_score (snakes g1) of
                Inl e \<Rightarrow> Inl e
              | Inr winner \<Rightarrow>
                  Inr (g1\<lparr>high_scores :=
                         add_score (score winner) (PlayerN (player_id winner)) Multi
                           (high_scores g1)\<rparr>))
        else (case snakes g1 of
                [] \<Rightarrow> Inl IndexError
              | s # _ \<Rightarrow>
                  Inr (g1\<lparr>high_scores := add_score (score s) Player Single (high_scores g1)\<rparr>))
      else Inr g)"


section \<open>Auxiliary notions for the statements\<close>

text \<open>A cell of the grid, as \<^verbatim>\<open>random.randint(0, GRID_WIDTH - 1)\<close> and its sibling draw it.\<close>

definition in_grid :: "pos \<Rightarrow> bool" where
  "in_grid p \<longleftrightarrow> 0 \<le> fst p \<and> fst p < GRID_WIDTH \<and> 0 \<le> snd p \<and> snd p < GRID_HEIGHT"

text \<open>\<open>first_free draws ss k j\<close>: from draw \<open>k\<close> on, draw \<open>j\<close> is the first free cell.\<close>

definition first_free :: "(nat \<Rightarrow> pos) \<Rightarrow> Snake list \<Rightarrow> nat \<Rightarrow> nat \<Rightarrow> bool" where
  "first_free draws ss k j \<longleftrightarrow>
     k \<le> j \<and> \<not> occupied ss (draws j) \<and> (\<forall>i. k \<le> i \<and> i < j \<longrightarrow> occupied ss (draws i))"

text \<open>A snake whose body covers every cell of the grid.\<close>

definition full_grid_snake :: Snake where
  "full_grid_snake =
     (Snake_init 1 (0, 0))\<lparr>positions :=
        concat (map (\<lambda>x. map (\<lambda>y. (x, y)) [0..GRID_HEIGHT - 1]) [0..GRID_WIDTH - 1])\<rparr>"

text \<open>
  The fields of a \<^verbatim>\<open>Game\<close> when a menu entry has chosen the mode and set the state to
  \<^verbatim>\<open>PLAYING\<close>, before \<^verbatim>\<open>reset_game\<close> builds the roster. \<^verbatim>\<open>Game.difficulty\<close> is
  \<^verbatim>\<open>EASY\<close>; the food cell is a placeholder that \<^verbatim>\<open>reset_game\<close> overwrites.
\<close>

definition Game_new :: "bool \<Rightarrow> Game" where
  "Game_new mp =
     \<lparr> state = PLAYING, difficulty = EASY, multiplayer = mp, snakes = [],
       food = \<lparr> fposition = (0, 0), fvalue = 10 \<rparr>,
       powerup_manager = PowerUpManager_init, high_scores = (\<lambda>_. []) \<rparr>"

text \<open>A finished two-player round in which both snakes have 30 points.\<close>

definition tied_game :: Game where
  "tied_game = (Game_new True)\<lparr>snakes :=
     [(Snake_init 1 (15, 20))\<lparr>score := 30, alive := False\<rparr>,
      (Snake_init 2 (45, 20))\<lparr>score := 30, alive := False\<rparr>]\<rparr>"

text \<open>
  Notions for the collision loop: \<open>kill a ss\<close> is the roster after
  \<^verbatim>\<open>snake1.alive = False\<close> for the snake at index \<open>a\<close>; \<open>hits al ss i js\<close> says that the
  snake at place \<open>i\<close> of the snapshot is vulnerable and has its head in the body of a snake
  at another place among \<open>js\<close>.
\<close>

definition kill :: "nat \<Rightarrow> Snake list \<Rightarrow> Snake list" where
  "kill a ss = ss[a := (ss ! a)\<lparr>alive := False\<rparr>]"

definition hits :: "nat list \<Rightarrow> Snake list \<Rightarrow> nat \<Rightarrow> nat list \<Rightarrow> bool" where
  "hits al ss i js \<longleftrightarrow>
     invulnerable_time (ss ! (al ! i)) \<le> 0 \<and>
     (\<exists>j\<in>set js. j \<noteq> i \<and> hd (positions (ss ! (al ! i))) \<in> set (positions (ss ! (al ! j))))"






section \<open>Properties of a single snake\<close>

text \<open>
  C10. \<open>move\<close> on a snake whose alive flag is already false returns true and leaves the
  whole snake (body, direction, pending growth, score, alive flag and all other fields)
  as it was.
\<close>

theorem move_dead_unchanged:
  "\<not> alive s \<Longrightarrow> move s = Inr (s, True)"
  by (simp add: move_def move_on_def)

theorem move_dead_unchanged_witness:
  "\<not> alive ((Snake_init 1 (2, 5))\<lparr>alive := False\<rparr>) \<and>
   move ((Snake_init 1 (2, 5))\<lparr>alive := False\<rparr>) =
     Inr ((Snake_init 1 (2, 5))\<lparr>alive := False\<rparr>, True)"
  using move_dead_unchanged [of "(Snake_init 1 (2, 5))\<lparr>alive := False\<rparr>"]
  by (simp add: Snake_init_def)

text \<open>
  C6, as stated, fails in its example: on a 10 by 10 grid a snake at (2,5) heading (1,0)
  has its head at (9,5) after seven advances, and the eighth advance (new head (10,5))
  already kills it.
\<close>

theorem eighth_advance_dies_counterexample:
  "iterate_move 10 10 8 (Snake_init 1 (2, 5)) =
     Inr ((Snake_init 1 (9, 5))\<lparr>alive := False\<rparr>, False)"
  by (simp add: eval_nat_numeral move_on_def Snake_init_def Let_def)

text \<open>
  C6, amended. For every grid size, an alive snake without wall phase whose new head
  leaves the grid becomes not alive, keeps every other field (the body among them) and
  \<open>move\<close> returns false. On a 10 by 10 grid the snake at (2,5) heading (1,0) survives
  seven advances, reaching (9,5), and dies on the eighth.
\<close>

theorem move_blocking_wall:
  "(\<forall>W H s hx hy rest.
      alive s \<and> \<not> wall_phase s \<and> positions s = (hx, hy) # rest \<and>
      (hx + fst (direction s) < 0 \<or> hx + fst (direction s) \<ge> W \<or>
       hy + snd (direction s) < 0 \<or> hy + snd (direction s) \<ge> H)
      \<longrightarrow> move_on W H s = Inr (s\<lparr>alive := False\<rparr>, False)) \<and>
   iterate_move 10 10 7 (Snake_init 1 (2, 5)) = Inr (Snake_init 1 (9, 5), True) \<and>
   iterate_move 10 10 8 (Snake_init 1 (2, 5)) =
     Inr ((Snake_init 1 (9, 5))\<lparr>alive := False\<rparr>, False)"
proof (intro conjI allI impI)
  fix W H :: int and s :: Snake and hx hy rest
  assume "alive s \<and> \<not> wall_phase s \<and> positions s = (hx, hy) # rest \<and>
      (hx + fst (direction s) < 0 \<or> hx + fst (direction s) \<ge> W \<or>
       hy + snd (direction s) < 0 \<or> hy + snd (direction s) \<ge> H)"
  then show "move_on W H s = Inr (s\<lparr>alive := False\<rparr>, False)"
    by (auto simp add: move_on_def Let_def)
next
  show "iterate_move 10 10 7 (Snake_init 1 (2, 5)) = Inr (Snake_init 1 (9, 5), True)"
    by (simp add: eval_nat_numeral move_on_def Snake_init_def Let_def)
next
  show "iterate_move 10 10 8 (Snake_init 1 (2, 5)) =
     Inr ((Snake_init 1 (9, 5))\<lparr>alive := False\<rparr>, False)"
    by (simp add: eval_nat_numeral move_on_def Snake_init_def Let_def)
qed

text \<open>
  The witness is the real grid (60 by 40): a snake with its head on the last column,
  heading right.
\<close>

theorem move_blocking_wall_witness:
  "alive (Snake_init 1 (59, 5)) \<and> \<not> wall_phase (Snake_init 1 (59, 5)) \<and>
   move (Snake_init 1 (59, 5)) = Inr ((Snake_init 1 (59, 5))\<lparr>alive := False\<rparr>, False)"
proof -
  have pre: "alive (Snake_init 1 (59, 5)) \<and> \<not> wall_phase (Snake_init 1 (59, 5)) \<and>
      positions (Snake_init 1 (59, 5)) = (59, 5) # [] \<and>
      (59 + fst (direction (Snake_init 1 (59, 5))) < 0 \<or>
       59 + fst (direction (Snake_init 1 (59, 5))) \<ge> GRID_WIDTH \<or>
       5 + snd (direction (Snake_init 1 (59, 5))) < 0 \<or>
       5 + snd (direction (Snake_init 1 (59, 5))) \<ge> GRID_HEIGHT)"
    by (simp add: Snake_init_def GRID_WIDTH_def WINDOW_WIDTH_def GRID_SIZE_def)
  from move_blocking_wall have
    "\<forall>W H s hx hy rest.
      alive s \<and> \<not> wall_phase s \<and> positions s = (hx, hy) # rest \<and>
      (hx + fst (direction s) < 0 \<or> hx + fst (direction s) \<ge> W \<or>
       hy + snd (direction s) < 0 \<or> hy + snd (direction s) \<ge> H)
      \<longrightarrow> move_on W H s = Inr (s\<lparr>alive := False\<rparr>, False)"
    by (rule conjunct1)
  then have "move_on GRID_WIDTH GRID_HEIGHT (Snake_init 1 (59, 5)) =
      Inr ((Snake_init 1 (59, 5))\<lparr>alive := False\<rparr>, False)"
    using pre by blast
  with pre show ?thesis by (simp add: move_def)
qed

text \<open>
  C2, as stated, fails for the shrink power-up: \<open>add_power_up\<close> runs the side effect of
  the type on every call, so a second shrink halves the body again. A body of eight
  cells has two cells after two applications and four after one.
\<close>

theorem shrink_twice_counterexample:
  "length (positions (add_power_up SHRINK 5 1 (add_power_up SHRINK 5 0
      ((Snake_init 1 (0, 0))\<lparr>positions := [(0, 0), (1, 0), (2, 0), (3, 0), (4, 0), (5, 0), (6, 0), (7, 0)]\<rparr>)))) = 2 \<and>
   length (positions (add_power_up SHRINK 5 1
      ((Snake_init 1 (0, 0))\<lparr>positions := [(0, 0), (1, 0), (2, 0), (3, 0), (4, 0), (5, 0), (6, 0), (7, 0)]\<rparr>))) = 4"
  by (simp add: add_power_up_def Snake_init_def Let_def)

text \<open>
  C2, amended. Applying a power-up type a second time stores the new expiry
  \<open>now + duration\<close>, and the snake after both applications is the snake after the second
  application alone exactly when the type is not shrink or the body has at most seven
  cells (so that the first shrink leaves at most three); for the speed boost the
  multiplier is 2 after the second application.
\<close>

theorem add_power_up_again:
  "power_ups (add_power_up t d2 n2 (add_power_up t d1 n1 s)) t = Some (n2 + d2) \<and>
   ((add_power_up t d2 n2 (add_power_up t d1 n1 s) = add_power_up t d2 n2 s)
      \<longleftrightarrow> (t \<noteq> SHRINK \<or> length (positions s) \<le> 7)) \<and>
   speed_multiplier (add_power_up SPEED_BOOST d2 n2 (add_power_up SPEED_BOOST d1 n1 s)) = 2"
proof (intro conjI)
  show "power_ups (add_power_up t d2 n2 (add_power_up t d1 n1 s)) t = Some (n2 + d2)"
    by (cases t) (simp_all add: add_power_up_def Let_def)
next
  show "speed_multiplier (add_power_up SPEED_BOOST d2 n2 (add_power_up SPEED_BOOST d1 n1 s)) = 2"
    by (simp add: add_power_up_def Let_def)
next
  show "(add_power_up t d2 n2 (add_power_up t d1 n1 s) = add_power_up t d2 n2 s)
      \<longleftrightarrow> (t \<noteq> SHRINK \<or> length (positions s) \<le> 7)"
  proof (cases "t = SHRINK")
    case False
    then show ?thesis by (cases t) (simp_all add: add_power_up_def Let_def)
  next
    case True
    show ?thesis
    proof (cases "length (positions s) \<le> 7")
      case le: True
      then show ?thesis using True by (simp add: add_power_up_def Let_def)
    next
      case gt: False
      have "length (positions (add_power_up t d2 n2 (add_power_up t d1 n1 s)))
              = length (positions s) div 2 div 2"
        using True gt by (simp add: add_power_up_def Let_def)
      moreover have "length (positions (add_power_up t d2 n2 s)) = length (positions s) div 2"
        using True gt by (simp add: add_power_up_def Let_def)
      moreover have "length (positions s) div 2 div 2 \<noteq> length (positions s) div 2"
        using gt by arith
      ultimately have "add_power_up t d2 n2 (add_power_up t d1 n1 s) \<noteq> add_power_up t d2 n2 s"
        by metis
      then show ?thesis using True gt by simp
    qed
  qed
qed

theorem add_power_up_again_witness:
  "add_power_up SPEED_BOOST 5 3 (add_power_up SPEED_BOOST 5 1 (Snake_init 1 (2, 5))) =
     add_power_up SPEED_BOOST 5 3 (Snake_init 1 (2, 5)) \<and>
   power_ups (add_power_up SPEED_BOOST 5 3 (add_power_up SPEED_BOOST 5 1 (Snake_init 1 (2, 5))))
     SPEED_BOOST = Some 8"
proof -
  note again = add_power_up_again [of SPEED_BOOST 5 3 5 1 "Snake_init 1 (2, 5)"]
  from again have expiry:
    "power_ups (add_power_up SPEED_BOOST 5 3 (add_power_up SPEED_BOOST 5 1 (Snake_init 1 (2, 5))))
       SPEED_BOOST = Some (3 + 5)"
    by (rule conjunct1)
  from again have same:
    "add_power_up SPEED_BOOST 5 3 (add_power_up SPEED_BOOST 5 1 (Snake_init 1 (2, 5))) =
       add_power_up SPEED_BOOST 5 3 (Snake_init 1 (2, 5))"
    by simp
  from expiry have
    "power_ups (add_power_up SPEED_BOOST 5 3 (add_power_up SPEED_BOOST 5 1 (Snake_init 1 (2, 5))))
       SPEED_BOOST = Some 8"
    by simp
  with same show ?thesis by (rule conjI)
qed

section \<open>Properties of the power-up manager\<close>

text \<open>
  C3, as stated, fails in the placement: \<open>spawn_powerup\<close> takes the drawn cell as it is
  and never looks at the snakes or the food. With the draw (15,20) the new power-up lies
  on the start cell of the first snake.
\<close>

theorem powerup_on_snake_counterexample:
  "pposition (last (active_powerups
      (pum_update SPEED_BOOST (15, 20) 11 11 PowerUpManager_init)))
     \<in> set (positions (Snake_init 1 (GRID_WIDTH div 4, GRID_HEIGHT div 2)))"
  by (simp add: pum_update_def spawn_powerup_def PowerUpManager_init_def Snake_init_def Let_def
      GRID_WIDTH_def GRID_HEIGHT_def WINDOW_WIDTH_def WINDOW_HEIGHT_def GRID_SIZE_def)

text \<open>
  C3, amended. \<open>pum_update\<close> discards every active power-up older than 15 seconds (it
  keeps exactly those of age below 15); it creates a power-up exactly when the
  accumulated timer exceeds the spawn interval and fewer than three are left, with the
  drawn type at the drawn cell, whether occupied or not, and then resets the timer to 0;
  otherwise the timer keeps the accumulated value.
\<close>

theorem pum_update_behaviour:
  "(\<forall>p\<in>set (active_powerups m). current_time - spawn_time p > 15 \<longrightarrow>
       p \<notin> set (active_powerups (pum_update rtype rpos dt current_time m))) \<and>
   (spawn_timer m + dt > spawn_interval m \<and>
    length (filter (\<lambda>p. current_time - spawn_time p < 15) (active_powerups m)) < 3 \<longrightarrow>
      active_powerups (pum_update rtype rpos dt current_time m) =
        filter (\<lambda>p. current_time - spawn_time p < 15) (active_powerups m) @
          [\<lparr> ptype = rtype, pposition = rpos, duration = 5, spawn_time = current_time \<rparr>] \<and>
      spawn_timer (pum_update rtype rpos dt current_time m) = 0) \<and>
   (\<not> (spawn_timer m + dt > spawn_interval m \<and>
       length (filter (\<lambda>p. current_time - spawn_time p < 15) (active_powerups m)) < 3) \<longrightarrow>
      active_powerups (pum_update rtype rpos dt current_time m) =
        filter (\<lambda>p. current_time - spawn_time p < 15) (active_powerups m) \<and>
      spawn_timer (pum_update rtype rpos dt current_time m) = spawn_timer m + dt)"
proof (intro conjI ballI impI)
  fix p assume "p \<in> set (active_powerups m)" and old: "current_time - spawn_time p > 15"
  then have "spawn_time p \<noteq> current_time" by auto
  with old show "p \<notin> set (active_powerups (pum_update rtype rpos dt current_time m))"
    by (auto simp add: pum_update_def spawn_powerup_def Let_def)
qed (auto simp add: pum_update_def spawn_powerup_def Let_def)

theorem pum_update_behaviour_witness:
  "active_powerups (pum_update WALL_PHASE (7, 7) 11 16
      \<lparr> active_powerups = [\<lparr> ptype = SHRINK, pposition = (1, 1), duration = 5, spawn_time = 0 \<rparr>],
        spawn_timer = 0, spawn_interval = 10 \<rparr>) =
     [\<lparr> ptype = WALL_PHASE, pposition = (7, 7), duration = 5, spawn_time = 16 \<rparr>] \<and>
   spawn_timer (pum_update WALL_PHASE (7, 7) 11 16
      \<lparr> active_powerups = [\<lparr> ptype = SHRINK, pposition = (1, 1), duration = 5, spawn_time = 0 \<rparr>],
        spawn_timer = 0, spawn_interval = 10 \<rparr>) = 0"
  using pum_update_behaviour [of
      "\<lparr> active_powerups = [\<lparr> ptype = SHRINK, pposition = (1, 1), duration = 5, spawn_time = 0 \<rparr>],
        spawn_timer = 0, spawn_interval = 10 \<rparr>" 16 WALL_PHASE "(7, 7)" 11]
  by simp

section \<open>Properties of the food respawn\<close>

lemma occupied_iff: "occupied ss p \<longleftrightarrow> (\<exists>s\<in>set ss. p \<in> set (positions s))"
  by (induction ss) auto

lemma first_free_step:
  "occupied ss (draws k) \<Longrightarrow> first_free draws ss (Suc k) j \<Longrightarrow> first_free draws ss k j"
  unfolding first_free_def
  by (metis Suc_leD Suc_leI le_neq_implies_less)

lemma first_free_here: "\<not> occupied ss (draws k) \<Longrightarrow> first_free draws ss k k"
  unfolding first_free_def by auto

text \<open>Whenever the loop returns, it returns the first free draw.\<close>

lemma loop_sound:
  assumes "respawn_food_loop draws ss k = Some r"
  shows "\<exists>j. first_free draws ss k j \<and> r = (draws j, Suc j)"
proof (rule respawn_food_loop.raw_induct
    [where P = "\<lambda>draws ss k r. \<exists>j. first_free draws ss k j \<and> r = (draws j, Suc j)"
       and draws = draws and ss = ss and k = k and y = r])
  fix loop :: "(nat \<Rightarrow> pos) \<Rightarrow> Snake list \<Rightarrow> nat \<Rightarrow> (pos \<times> nat) option"
  fix draws ss k r
  assume IH: "\<And>draws ss k r. loop draws ss k = Some r \<Longrightarrow>
                \<exists>j. first_free draws ss k j \<and> r = (draws j, Suc j)"
    and eq: "(if occupied ss (draws k) then loop draws ss (Suc k)
              else Some (draws k, Suc k)) = Some r"
  show "\<exists>j. first_free draws ss k j \<and> r = (draws j, Suc j)"
  proof (cases "occupied ss (draws k)")
    case True
    with eq have "loop draws ss (Suc k) = Some r" by simp
    then have "\<exists>j. first_free draws ss (Suc k) j \<and> r = (draws j, Suc j)" by (rule IH)
    then obtain j where "first_free draws ss (Suc k) j" "r = (draws j, Suc j)"
      by (elim exE conjE)
    then show ?thesis
      using first_free_step[of ss draws k j] True by (intro exI[of _ j]) simp
  next
    case False
    with eq have "r = (draws k, Suc k)" by simp
    with False show ?thesis
      using first_free_here[of ss draws k] by (intro exI[of _ k]) simp
  qed
next
  show "respawn_food_loop draws ss k = Some r" by (rule assms)
qed

text \<open>A free draw ahead makes the loop return: induction on the distance to it.\<close>

lemma loop_complete:
  "\<not> occupied ss (draws j) \<Longrightarrow> k \<le> j \<Longrightarrow> respawn_food_loop draws ss k \<noteq> None"
proof (induction "j - k" arbitrary: k)
  case 0
  then have "k = j" by simp
  with 0 show ?case by (subst respawn_food_loop.simps) simp
next
  case (Suc n)
  then have "n = j - Suc k" "Suc k \<le> j" by simp_all
  from Suc(1)[OF this(1) Suc(3) this(2)]
  have "respawn_food_loop draws ss (Suc k) \<noteq> None" .
  then show ?case by (subst respawn_food_loop.simps) simp
qed

lemma loop_none_if_all_occupied:
  assumes "\<And>j. k \<le> j \<Longrightarrow> occupied ss (draws j)"
  shows "respawn_food_loop draws ss k = None"
proof (cases "respawn_food_loop draws ss k")
  case None
  then show ?thesis .
next
  case (Some r)
  from loop_sound[OF Some] obtain j where "first_free draws ss k j" by blast
  then have "k \<le> j" "\<not> occupied ss (draws j)" by (simp_all add: first_free_def)
  with assms show ?thesis by blast
qed

lemma full_grid_occupied: "in_grid p \<Longrightarrow> occupied [full_grid_snake] p"
  by (cases p) (force simp add: full_grid_snake_def in_grid_def)

text \<open>On a full grid no sequence of draws from the grid lets the loop return.\<close>

lemma respawn_full_grid_never_returns:
  assumes "\<And>j. in_grid (draws j)"
  shows "respawn_food_loop draws [full_grid_snake] k = None"
  by (rule loop_none_if_all_occupied) (rule full_grid_occupied, rule assms)

text \<open>
  C4, as stated, fails: the loop of \<open>respawn_food\<close> has no bound on its attempts and no
  exit but a free cell. With a snake on every cell of the grid the call never returns,
  here for the draws \<open>(k mod 60, k mod 40)\<close>.
\<close>

theorem respawn_full_grid_counterexample:
  "respawn_food_loop (\<lambda>k. (int (k mod 60), int (k mod 40))) [full_grid_snake] 0 = None"
proof (rule loop_none_if_all_occupied)
  fix j :: nat
  have "in_grid (int (j mod 60), int (j mod 40))"
    by (simp add: in_grid_def GRID_WIDTH_def GRID_HEIGHT_def WINDOW_WIDTH_def
        WINDOW_HEIGHT_def GRID_SIZE_def)
  then show "occupied [full_grid_snake] (int (j mod 60), int (j mod 40))"
    by (rule full_grid_occupied)
qed

text \<open>
  C4, amended. The search is unbounded: \<open>respawn_food\<close> returns exactly when one of the
  cells drawn from the current attempt on is free, and then with the first such cell;
  when every drawn cell is occupied it never returns.
\<close>

theorem respawn_returns_iff:
  "((\<exists>r. respawn_food_loop draws ss k = Some r) \<longleftrightarrow> (\<exists>j. k \<le> j \<and> \<not> occupied ss (draws j))) \<and>
   (\<forall>r. respawn_food_loop draws ss k = Some r \<longrightarrow>
      (\<exists>j. k \<le> j \<and> r = (draws j, Suc j) \<and> \<not> occupied ss (draws j) \<and>
           (\<forall>i. k \<le> i \<and> i < j \<longrightarrow> occupied ss (draws i))))"
proof (intro conjI allI impI iffI)
  assume "\<exists>r. respawn_food_loop draws ss k = Some r"
  then obtain r where "respawn_food_loop draws ss k = Some r" ..
  from loop_sound[OF this] show "\<exists>j. k \<le> j \<and> \<not> occupied ss (draws j)"
    unfolding first_free_def by blast
next
  assume "\<exists>j. k \<le> j \<and> \<not> occupied ss (draws j)"
  then obtain j where "k \<le> j" "\<not> occupied ss (draws j)" by blast
  from loop_complete[of ss draws j k] this
  show "\<exists>r. respawn_food_loop draws ss k = Some r"
    by simp
next
  fix r assume "respawn_food_loop draws ss k = Some r"
  from loop_sound[OF this]
  show "\<exists>j. k \<le> j \<and> r = (draws j, Suc j) \<and> \<not> occupied ss (draws j) \<and>
           (\<forall>i. k \<le> i \<and> i < j \<longrightarrow> occupied ss (draws i))"
    unfolding first_free_def by blast
qed

theorem respawn_returns_iff_witness:
  "\<exists>r. respawn_food_loop (\<lambda>k. if k = 0 then (15, 20) else (3, 4))
         [Snake_init 1 (15, 20)] 0 = Some r"
proof -
  have "(0::nat) \<le> 1 \<and>
      \<not> occupied [Snake_init 1 (15, 20)] ((\<lambda>k::nat. if k = 0 then (15, 20) else (3, 4)) 1)"
    by (simp add: Snake_init_def)
  then have "\<exists>j. (0::nat) \<le> j \<and>
      \<not> occupied [Snake_init 1 (15, 20)] ((\<lambda>k::nat. if k = 0 then (15, 20) else (3, 4)) j)"
    by (rule exI)
  with respawn_returns_iff
    [of "\<lambda>k. if k = 0 then (15, 20) else (3, 4)" "[Snake_init 1 (15, 20)]" 0]
  show ?thesis by blast
qed

text \<open>
  C7. When \<open>respawn_food\<close> returns, the food lies on a cell that no snake of the roster
  holds, and the roster is as before.
\<close>

theorem respawn_food_free:
  assumes "respawn_food draws k g = Inr (g', k')"
  shows "(\<forall>s\<in>set (snakes g'). fposition (food g') \<notin> set (positions s)) \<and>
         snakes g' = snakes g"
proof -
  from assms obtain p where loop: "respawn_food_loop draws (snakes g) k = Some (p, k')"
    and g': "g' = g\<lparr>food := (food g)\<lparr>fposition := p\<rparr>\<rparr>"
    by (auto simp add: respawn_food_def split: option.splits)
  from loop_sound[OF loop] have "\<not> occupied (snakes g) p"
    by (auto simp add: first_free_def)
  with g' show ?thesis by (simp add: occupied_iff)
qed

text \<open>
  The witness is the respawn inside \<open>reset_game\<close> of a single-player game whose first
  two draws are the start cell (15,20) of the snake and whose third draw is (3,4).
\<close>

lemma reset_game_example:
  "reset_game (\<lambda>k. if k \<le> 1 then (15, 20) else (3, 4)) 0 (Game_new False) =
     Inr ((Game_new False)\<lparr>snakes := [Snake_init 1 (15, 20)],
            food := \<lparr> fposition = (3, 4), fvalue = 10 \<rparr>\<rparr>, 3)"
  apply (simp add: reset_game_def respawn_food_def Let_def Game_new_def
      GRID_WIDTH_def GRID_HEIGHT_def WINDOW_WIDTH_def WINDOW_HEIGHT_def GRID_SIZE_def)
  apply (subst respawn_food_loop.simps, simp add: Snake_init_def)
  apply (subst respawn_food_loop.simps, simp add: Snake_init_def eval_nat_numeral)
  done

theorem respawn_food_free_witness:
  "fposition (food ((Game_new False)\<lparr>snakes := [Snake_init 1 (15, 20)],
            food := \<lparr> fposition = (3, 4), fvalue = 10 \<rparr>\<rparr>))
     \<notin> set (positions (Snake_init 1 (15, 20)))"
proof -
  have "respawn_food (\<lambda>k. if k \<le> 1 then (15, 20) else (3, 4)) 1
          ((Game_new False)\<lparr>snakes := [Snake_init 1 (15, 20)],
             food := \<lparr> fposition = (15, 20), fvalue = 10 \<rparr>\<rparr>) =
        Inr ((Game_new False)\<lparr>snakes := [Snake_init 1 (15, 20)],
            food := \<lparr> fposition = (3, 4), fvalue = 10 \<rparr>\<rparr>, 3)"
    using reset_game_example
    by (simp add: reset_game_def Let_def Game_new_def
      GRID_WIDTH_def GRID_HEIGHT_def WINDOW_WIDTH_def WINDOW_HEIGHT_def GRID_SIZE_def)
  from respawn_food_free[OF this] show ?thesis by simp
qed

section \<open>Game over and the recorded score\<close>

text \<open>
  The result of \<open>max_score_from\<close> is the first entry of the roster that has the greatest
  score: nothing scores more, and everything before it scores strictly less.
\<close>

lemma max_score_from_first:
  "\<exists>i<length (best # ss).
      max_score_from best ss = (best # ss) ! i \<and>
      (\<forall>s\<in>set (best # ss). score s \<le> score ((best # ss) ! i)) \<and>
      (\<forall>j<i. score ((best # ss) ! j) < score ((best # ss) ! i))"
proof (induction ss arbitrary: best)
  case Nil
  show ?case by simp
next
  case (Cons s ss)
  show ?case
  proof (cases "score s > score best")
    case True
    from Cons[of s] obtain i where i: "i < length (s # ss)"
      "max_score_from s ss = (s # ss) ! i"
      "\<forall>t\<in>set (s # ss). score t \<le> score ((s # ss) ! i)"
      "\<forall>j<i. score ((s # ss) ! j) < score ((s # ss) ! i)" by blast
    from i(3) have "score s \<le> score ((s # ss) ! i)" by simp
    with True have best: "score best < score ((s # ss) ! i)" by simp
    have "\<forall>j<Suc i. score ((best # s # ss) ! j) < score ((best # s # ss) ! Suc i)"
    proof (intro allI impI)
      fix j assume "j < Suc i"
      then show "score ((best # s # ss) ! j) < score ((best # s # ss) ! Suc i)"
        using best i(4) by (cases j) auto
    qed
    moreover have "\<forall>t\<in>set (best # s # ss). score t \<le> score ((best # s # ss) ! Suc i)"
      using best i(3) by auto
    ultimately show ?thesis using True i(1,2)
      by (intro exI[of _ "Suc i"]) simp
  next
    case False
    from Cons[of best] obtain i where i: "i < length (best # ss)"
      "max_score_from best ss = (best # ss) ! i"
      "\<forall>t\<in>set (best # ss). score t \<le> score ((best # ss) ! i)"
      "\<forall>j<i. score ((best # ss) ! j) < score ((best # ss) ! i)" by blast
    show ?thesis
    proof (cases i)
      case 0
      with i False show ?thesis by (intro exI[of _ 0]) auto
    next
      case (Suc n)
      have "\<forall>j<Suc (Suc n). score ((best # s # ss) ! j) < score ((best # s # ss) ! Suc (Suc n))"
      proof (intro allI impI)
        fix j assume j: "j < Suc (Suc n)"
        show "score ((best # s # ss) ! j) < score ((best # s # ss) ! Suc (Suc n))"
        proof (cases j)
          case 0
          then show ?thesis using i(4) Suc by auto
        next
          case (Suc m)
          show ?thesis
          proof (cases m)
            case 0
            have "score best < score ((best # ss) ! i)" using i(4) \<open>i = Suc n\<close> by auto
            with False 0 \<open>j = Suc m\<close> \<open>i = Suc n\<close> show ?thesis by simp
          next
            case (Suc l)
            with j \<open>j = Suc m\<close> have "Suc l < i" using \<open>i = Suc n\<close> by simp
            with i(4) have "score ((best # ss) ! Suc l) < score ((best # ss) ! i)" by blast
            then show ?thesis using Suc \<open>j = Suc m\<close> \<open>i = Suc n\<close> by simp
          qed
        qed
      qed
      moreover have "\<forall>t\<in>set (best # s # ss). score t \<le> score ((best # s # ss) ! Suc (Suc n))"
      proof -
        have "score best < score ((best # ss) ! i)" using i(4) Suc by auto
        with False i(3) Suc show ?thesis by auto
      qed
      ultimately show ?thesis using False i(1,2) Suc
        by (intro exI[of _ "Suc (Suc n)"]) simp
    qed
  qed
qed


text \<open>
  C9. When no snake of a non-empty roster is alive, \<open>check_game_over\<close> sets the state
  to \<open>GAME_OVER\<close> and calls \<open>add_score\<close>: in multiplayer with the score and player id
  of the snake of greatest score, the first such snake of the roster on a tie, which is
  the one of lowest player id when the ids increase along the roster as \<open>reset_game\<close>
  builds it; in single-player mode with the score of the first (only) snake.
\<close>

theorem game_over_records_winner:
  assumes "\<not> list_ex alive (snakes g)" and "snakes g \<noteq> []"
  shows "(multiplayer g \<longrightarrow>
           (\<exists>i<length (snakes g).
              check_game_over g =
                Inr (g\<lparr>state := GAME_OVER,
                      high_scores := add_score (score (snakes g ! i))
                         (PlayerN (player_id (snakes g ! i))) Multi (high_scores g)\<rparr>) \<and>
              (\<forall>s\<in>set (snakes g). score s \<le> score (snakes g ! i)) \<and>
              (\<forall>j<i. score (snakes g ! j) < score (snakes g ! i)) \<and>
              (sorted_wrt (\<lambda>a b. player_id a < player_id b) (snakes g) \<longrightarrow>
                 (\<forall>s\<in>set (snakes g). score s = score (snakes g ! i) \<longrightarrow>
                    player_id (snakes g ! i) \<le> player_id s)))) \<and>
         (\<not> multiplayer g \<longrightarrow>
           check_game_over g =
             Inr (g\<lparr>state := GAME_OVER,
                   high_scores := add_score (score (hd (snakes g))) Player Single
                      (high_scores g)\<rparr>))"
proof (intro conjI impI)
  assume mp: "multiplayer g"
  from assms(2) obtain b rest where roster: "snakes g = b # rest" by (cases "snakes g") auto
  from max_score_from_first[of b rest] obtain i where i: "i < length (b # rest)"
    "max_score_from b rest = (b # rest) ! i"
    "\<forall>s\<in>set (b # rest). score s \<le> score ((b # rest) ! i)"
    "\<forall>j<i. score ((b # rest) ! j) < score ((b # rest) ! i)" by blast
  have rec: "check_game_over g =
      Inr (g\<lparr>state := GAME_OVER,
            high_scores := add_score (score (snakes g ! i))
               (PlayerN (player_id (snakes g ! i))) Multi (high_scores g)\<rparr>)"
    using assms(1) mp roster i(2)
    by (simp add: check_game_over_def max_by_score_def Let_def)
  have ids: "\<forall>s\<in>set (snakes g). score s = score (snakes g ! i) \<longrightarrow>
                    player_id (snakes g ! i) \<le> player_id s"
    if sorted: "sorted_wrt (\<lambda>a b. player_id a < player_id b) (snakes g)"
  proof (intro ballI impI)
    fix s assume "s \<in> set (snakes g)" and eq: "score s = score (snakes g ! i)"
    then obtain j where j: "j < length (snakes g)" "s = snakes g ! j"
      by (auto simp add: in_set_conv_nth)
    have "\<not> j < i" using i(4) eq j(2) roster by auto
    then have "i \<le> j" by simp
    show "player_id (snakes g ! i) \<le> player_id s"
    proof (cases "i = j")
      case True
      with j show ?thesis by simp
    next
      case False
      with \<open>i \<le> j\<close> have "i < j" by simp
      from sorted_wrt_nth_less[OF sorted this j(1)] j(2) show ?thesis by simp
    qed
  qed
  show "\<exists>i<length (snakes g).
              check_game_over g =
                Inr (g\<lparr>state := GAME_OVER,
                      high_scores := add_score (score (snakes g ! i))
                         (PlayerN (player_id (snakes g ! i))) Multi (high_scores g)\<rparr>) \<and>
              (\<forall>s\<in>set (snakes g). score s \<le> score (snakes g ! i)) \<and>
              (\<forall>j<i. score (snakes g ! j) < score (snakes g ! i)) \<and>
              (sorted_wrt (\<lambda>a b. player_id a < player_id b) (snakes g) \<longrightarrow>
                 (\<forall>s\<in>set (snakes g). score s = score (snakes g ! i) \<longrightarrow>
                    player_id (snakes g ! i) \<le> player_id s))"
    using rec i(1,3,4) ids roster by (intro exI[of _ i]) simp
next
  assume "\<not> multiplayer g"
  with assms show "check_game_over g =
             Inr (g\<lparr>state := GAME_OVER,
                   high_scores := add_score (score (hd (snakes g))) Player Single
                      (high_scores g)\<rparr>)"
    by (cases "snakes g") (simp_all add: check_game_over_def Let_def)
qed

theorem game_over_records_winner_witness:
  "check_game_over tied_game =
     Inr (tied_game\<lparr>state := GAME_OVER,
            high_scores := add_score 30 (PlayerN 1) Multi (high_scores tied_game)\<rparr>)"
proof -
  have dead: "\<not> list_ex alive (snakes tied_game)" and ne: "snakes tied_game \<noteq> []"
    and mp: "multiplayer tied_game"
    by (simp_all add: tied_game_def Game_new_def Snake_init_def)
  from game_over_records_winner[OF dead ne] mp
  obtain i where i: "i < length (snakes tied_game)"
    "check_game_over tied_game =
       Inr (tied_game\<lparr>state := GAME_OVER,
              high_scores := add_score (score (snakes tied_game ! i))
                (PlayerN (player_id (snakes tied_game ! i))) Multi (high_scores tied_game)\<rparr>)"
    "\<forall>j<i. score (snakes tied_game ! j) < score (snakes tied_game ! i)"
    by blast
  have "i = 0"
  proof (rule ccontr)
    assume "i \<noteq> 0"
    with i(1) have "i = 1" by (simp add: tied_game_def)
    with i(3) have "score (snakes tied_game ! 0) < score (snakes tied_game ! 1)" by simp
    then show False by (simp add: tied_game_def Snake_init_def)
  qed
  with i(2) show ?thesis by (simp add: tied_game_def Snake_init_def)
qed


section \<open>Snake-to-snake collisions\<close>

lemma kill_positions [simp]: "positions (kill a ss ! b) = positions (ss ! b)"
proof (cases "a = b \<and> a < length ss")
  case True
  then show ?thesis by (simp add: kill_def)
next
  case False
  then have "kill a ss ! b = ss ! b"
    by (cases "a = b") (simp_all add: kill_def list_update_beyond)
  then show ?thesis by simp
qed

lemma kill_invulnerable [simp]:
  "invulnerable_time (kill a ss ! b) = invulnerable_time (ss ! b)"
proof (cases "a = b \<and> a < length ss")
  case True
  then show ?thesis by (simp add: kill_def)
next
  case False
  then have "kill a ss ! b = ss ! b"
    by (cases "a = b") (simp_all add: kill_def list_update_beyond)
  then show ?thesis by simp
qed

lemma kill_length [simp]: "length (kill a ss) = length ss"
  by (simp add: kill_def)

lemma kill_idem [simp]: "kill a (kill a ss) = kill a ss"
  by (cases "a < length ss") (simp_all add: kill_def list_update_beyond)

lemma hits_kill [simp]: "hits al (kill a ss) i js = hits al ss i js"
  by (simp add: hits_def)







lemma fold_kill_length [simp]:
  "length (fold (\<lambda>i acc. if H i then kill (al ! i) acc else acc) is ss) = length ss"
  by (induction "is" arbitrary: ss) simp_all






section \<open>The movement and food loops of the step\<close>



lemma move_returns: "positions s \<noteq> [] \<Longrightarrow> \<exists>s' ok. move s = Inr (s', ok)"
  by (cases "positions s") (auto simp add: move_def move_on_def Let_def split: prod.splits)



lemma move_survived:
  "move s = Inr (s', ok) \<Longrightarrow> alive s \<Longrightarrow> ok \<longleftrightarrow> alive s'"
  by (cases "positions s")
    (auto simp add: move_def move_on_def Let_def split: if_splits prod.splits)























section \<open>Body length over a whole step\<close>































end
